theory Spec2Isabelle
  imports Complex_Main "HOL-Library.Log_Nat"
begin

section \<open>Python floats\<close>

text \<open>
  A Python \<^verbatim>\<open>float\<close> (and a numpy \<^verbatim>\<open>float64\<close>) is an IEEE 754 binary64 value: a finite
  number, one of the two infinities, or NaN. A finite value is kept as the real number it
  denotes. The sign of a zero is dropped: the program never divides by a float zero and
  never prints one.
\<close>

datatype double = Fin real | PInf | NInf | NaN

text \<open>Rounding a real to the nearest integer, a tie going to the even neighbour.\<close>

definition rne :: "real \<Rightarrow> int" where
  "rne x = (let f = \<lfloor>x\<rfloor>; r = x - of_int f
            in if r < 1/2 then f else if 1/2 < r then f + 1
               else if even f then f else f + 1)"

text \<open>The number of bits of a positive integer.\<close>

function blen :: "int \<Rightarrow> int" where
  "blen n = (if n \<le> 0 then 0 else blen (n div 2) + 1)"
  by pat_completeness auto
termination
  by (relation "measure nat") auto

text \<open>
  The binary exponent of a positive real: \<open>2 powi ilog2 x \<le> x < 2 powi (ilog2 x + 1)\<close>.
\<close>

definition ilog2 :: "real \<Rightarrow> int" where
  "ilog2 x = (if 1 \<le> x then blen \<lfloor>x\<rfloor> - 1 else - blen (\<lceil>1 / x\<rceil> - 1))"

text \<open>
  binary64 has 53 significant bits and a least normal exponent of \<open>- 1022\<close>; below it the
  subnormal numbers share the spacing \<open>2 powi (- 1074)\<close>.
\<close>

definition cexp :: "real \<Rightarrow> int" where
  "cexp x = max (ilog2 x) (- 1022)"

definition quantum :: "real \<Rightarrow> real" where
  "quantum x = 2 powi (cexp x - 52)"

definition round_pos :: "real \<Rightarrow> real" where
  "round_pos x = of_int (rne (x / quantum x)) * quantum x"

text \<open>Round to nearest, ties to even, before the check for overflow.\<close>

definition rnd :: "real \<Rightarrow> real" where
  "rnd x = (if x = 0 then 0 else if 0 < x then round_pos x else - round_pos (- x))"

text \<open>
  The result of an operation whose exact value is \<open>x\<close>: the greatest exponent of a finite
  double is 1023, and a rounded value beyond it overflows to an infinity.
\<close>

definition fround :: "real \<Rightarrow> double" where
  "fround x = (let y = rnd x
               in if y \<noteq> 0 \<and> 1024 \<le> ilog2 \<bar>y\<bar> then (if 0 < y then PInf else NInf)
                  else Fin y)"

text \<open>A decimal literal of the source denotes the double nearest to it.\<close>

definition lit :: "real \<Rightarrow> double" where
  "lit x = fround x"

fun is_nan :: "double \<Rightarrow> bool" where
  "is_nan NaN = True"
| "is_nan _ = False"

fun dsgn :: "double \<Rightarrow> real" where
  "dsgn (Fin x) = sgn x"
| "dsgn PInf = 1"
| "dsgn NInf = - 1"
| "dsgn NaN = 0"

fun fneg :: "double \<Rightarrow> double" where
  "fneg (Fin x) = Fin (- x)"
| "fneg PInf = NInf"
| "fneg NInf = PInf"
| "fneg NaN = NaN"

fun fabs :: "double \<Rightarrow> double" where
  "fabs (Fin x) = Fin \<bar>x\<bar>"
| "fabs PInf = PInf"
| "fabs NInf = PInf"
| "fabs NaN = NaN"

fun fadd :: "double \<Rightarrow> double \<Rightarrow> double" where
  "fadd (Fin x) (Fin y) = fround (x + y)"
| "fadd NaN _ = NaN"
| "fadd _ NaN = NaN"
| "fadd PInf NInf = NaN"
| "fadd NInf PInf = NaN"
| "fadd PInf _ = PInf"
| "fadd _ PInf = PInf"
| "fadd NInf _ = NInf"
| "fadd _ NInf = NInf"

definition fsub :: "double \<Rightarrow> double \<Rightarrow> double" where
  "fsub a b = fadd a (fneg b)"

fun fmul :: "double \<Rightarrow> double \<Rightarrow> double" where
  "fmul (Fin x) (Fin y) = fround (x * y)"
| "fmul a b =
     (if is_nan a \<or> is_nan b \<or> dsgn a * dsgn b = 0 then NaN
      else if 0 < dsgn a * dsgn b then PInf else NInf)"

text \<open>
  Division as numpy does it. Every divisor in the program is a positive count or a
  positive constant; the zero divisor is written out for completeness, as a positive zero.
\<close>

fun fdiv :: "double \<Rightarrow> double \<Rightarrow> double" where
  "fdiv (Fin x) (Fin y) =
     (if y = 0 then (if x = 0 then NaN else if 0 < x then PInf else NInf)
      else fround (x / y))"
| "fdiv (Fin x) PInf = Fin 0"
| "fdiv (Fin x) NInf = Fin 0"
| "fdiv PInf (Fin y) = (if 0 \<le> y then PInf else NInf)"
| "fdiv NInf (Fin y) = (if 0 \<le> y then NInf else PInf)"
| "fdiv _ _ = NaN"

fun fsqrt :: "double \<Rightarrow> double" where
  "fsqrt (Fin x) = (if x < 0 then NaN else fround (sqrt x))"
| "fsqrt PInf = PInf"
| "fsqrt NInf = NaN"
| "fsqrt NaN = NaN"

text \<open>The comparison \<^verbatim>\<open>a < b\<close>: false as soon as one side is NaN.\<close>

fun flt :: "double \<Rightarrow> double \<Rightarrow> bool" where
  "flt (Fin x) (Fin y) = (x < y)"
| "flt NaN _ = False"
| "flt _ NaN = False"
| "flt _ NInf = False"
| "flt PInf _ = False"
| "flt NInf _ = True"
| "flt _ PInf = True"

definition fgt :: "double \<Rightarrow> double \<Rightarrow> bool" where
  "fgt a b = flt b a"

text \<open>
  The values a float can hold: the infinities, NaN, and the finite numbers that rounding
  leaves as they are.
\<close>

definition is_double :: "double \<Rightarrow> bool" where
  "is_double d = (case d of Fin y \<Rightarrow> fround y = Fin y | _ \<Rightarrow> True)"

text \<open>\<^verbatim>\<open>min(a, b)\<close> of two arguments: the first one unless the second is smaller.\<close>

definition py_min :: "double \<Rightarrow> double \<Rightarrow> double" where
  "py_min a b = (if flt b a then b else a)"



text \<open>
  The exceptions a request can end in. \<open>TimestampError\<close> stands for the exception that
  \<^verbatim>\<open>datetime.fromtimestamp\<close> raises on a finite timestamp it cannot convert: a
  \<^verbatim>\<open>ValueError\<close>, an \<^verbatim>\<open>OverflowError\<close> or an \<^verbatim>\<open>OSError\<close>, depending on the value and
  on the platform.
\<close>

datatype error = TypeError | OverflowError | ValueError | TimestampError | HTTPException nat

text \<open>
  An \<^verbatim>\<open>int\<close> used where a float is needed is converted with correct rounding; the
  conversion raises when the integer is too large.
\<close>

definition py_float :: "int \<Rightarrow> error + double" where
  "py_float n = (case fround (of_int n) of Fin y \<Rightarrow> Inr (Fin y) | _ \<Rightarrow> Inl OverflowError)"

text \<open>
  The length of a list as a float. A Python list has fewer than \<open>2 ^ 63\<close> items, so this
  conversion cannot raise.
\<close>

definition float_of_len :: "nat \<Rightarrow> double" where
  "float_of_len n = fround (of_nat n)"

text \<open>\<^verbatim>\<open>a / b\<close> on two integers, \<open>b\<close> not zero: the correctly rounded quotient.\<close>

definition py_truediv :: "int \<Rightarrow> int \<Rightarrow> error + double" where
  "py_truediv a b =
     (case fround (of_int a / of_int b) of Fin y \<Rightarrow> Inr (Fin y) | _ \<Rightarrow> Inl OverflowError)"

text \<open>\<^verbatim>\<open>str(n)\<close> of a non-negative and of any integer, as an f-string renders it.\<close>

function str_nat :: "nat \<Rightarrow> string" where
  "str_nat n = (if n < 10 then [''0123456789'' ! n]
                else str_nat (n div 10) @ [''0123456789'' ! (n mod 10)])"
  by pat_completeness auto
termination
  by (relation "measure id") auto

definition str_int :: "int \<Rightarrow> string" where
  "str_int i = (if i < 0 then CHR ''-'' # str_nat (nat (- i)) else str_nat (nat i))"

section \<open>numpy reductions\<close>

text \<open>
  \<^verbatim>\<open>np.add.reduce\<close> on a float64 array sums pairwise: fewer than 8 items one after the
  other; up to 128 items with eight running sums that are combined as a tree, the
  items left over added one by one; a longer array is split in two at a multiple of 8.
\<close>

function acc8 :: "double list \<Rightarrow> double list \<Rightarrow> double list" where
  "acc8 r xs = (if length xs < 8 then r
                else acc8 (map2 fadd r (take 8 xs)) (drop 8 xs))"
  by pat_completeness auto
termination
  by (relation "measure (\<lambda>(r, xs). length xs)") auto

function pairwise_sum :: "double list \<Rightarrow> double" where
  "pairwise_sum xs =
     (let n = length xs in
      if n < 8 then foldl fadd (Fin 0) xs
      else if n \<le> 128 then
        (let r = acc8 (take 8 xs) (drop 8 (take (n - n mod 8) xs));
             res = fadd (fadd (fadd (r ! 0) (r ! 1)) (fadd (r ! 2) (r ! 3)))
                        (fadd (fadd (r ! 4) (r ! 5)) (fadd (r ! 6) (r ! 7)))
         in foldl fadd res (drop (n - n mod 8) xs))
      else
        (let n2 = n div 2 - (n div 2) mod 8
         in fadd (pairwise_sum (take n2 xs)) (pairwise_sum (drop n2 xs))))"
  by pat_completeness auto
termination
proof (relation "measure length")
  show "wf (measure length)" by simp
next
  fix xs :: "double list" and n n2
  assume "n = length xs" "\<not> n < 8" "\<not> n \<le> 128" "n2 = n div 2 - n div 2 mod 8"
  then have "n2 < length xs" by arith
  then show "(take n2 xs, xs) \<in> measure length" by simp
next
  fix xs :: "double list" and n n2
  assume "n = length xs" "\<not> n < 8" "\<not> n \<le> 128" "n2 = n div 2 - n div 2 mod 8"
  then have "length xs - n2 < length xs" by arith
  then show "(drop n2 xs, xs) \<in> measure length" by simp
qed

text \<open>The reduction starts from the identity \<open>0.0\<close>.\<close>

definition np_sum :: "double list \<Rightarrow> double" where
  "np_sum xs = fadd (Fin 0) (pairwise_sum xs)"

text \<open>\<^verbatim>\<open>np.mean\<close>: the sum divided by the count.\<close>

definition np_mean :: "double list \<Rightarrow> double" where
  "np_mean xs = fdiv (np_sum xs) (float_of_len (length xs))"

text \<open>
  \<^verbatim>\<open>np.std\<close> with its default \<^verbatim>\<open>ddof=0\<close>: the square root of the mean of the squared
  deviations from the mean.
\<close>

definition np_std :: "double list \<Rightarrow> double" where
  "np_std xs =
     (let arrmean = fdiv (np_sum xs) (float_of_len (length xs));
          x = map (\<lambda>a. fsub a arrmean) xs;
          x2 = map (\<lambda>d. fmul d d) x
      in fsqrt (fdiv (np_sum x2) (float_of_len (length xs))))"

section \<open>Data model\<close>

text \<open>\<^verbatim>\<open>class TelemetryBatch(BaseModel)\<close>: the body of an upload request.\<close>

record TelemetryBatch =
  device_id :: string
  encrypted_data :: string
  batch_start :: double
  batch_end :: double
  sample_count :: int

text \<open>The dict appended to \<^verbatim>\<open>TELEMETRY_STORE\<close>: the batch and the time it arrived.\<close>

record stored_batch = TelemetryBatch +
  received_at :: double

text \<open>
  \<^verbatim>\<open>class AnalysisRequest(BaseModel)\<close>. The field \<^verbatim>\<open>time_range_hours\<close> is an
  \<^verbatim>\<open>Optional[int]\<close>: a request may carry \<^verbatim>\<open>null\<close>; a request without the field gets
  the default 24.
\<close>

record AnalysisRequest =
  req_device_id :: string
  time_range_hours :: "int option"

text \<open>\<^verbatim>\<open>class ThreatReport(BaseModel)\<close>, and the dict kept in \<^verbatim>\<open>THREAT_DATABASE\<close>.\<close>

record ThreatReport =
  threat_level :: string
  confidence :: double
  indicators :: "string list"
  recommendations :: "string list"
  timestamp :: double

record stored_threat = ThreatReport +
  reported_at :: double

record upload_response =
  up_status :: string
  batch_id :: nat
  up_received_at :: double
  batches_stored :: nat

record report_response =
  rp_status :: string
  threat_id :: nat
  distributed_to_network :: bool

text \<open>The two dicts \<^verbatim>\<open>request_analysis\<close> can return.\<close>

record insufficient_data =
  message :: string
  recommendation :: string

record analysis =
  an_threat_level :: string
  an_threat_score :: double
  an_confidence :: double
  an_hours :: int
  an_batches_analyzed :: nat
  an_total_samples :: int
  an_indicators :: "string list"
  an_recommendations :: "string list"
  an_timestamp :: double

datatype analysis_response = Insufficient insufficient_data | Complete analysis

fun status :: "analysis_response \<Rightarrow> string" where
  "status (Insufficient _) = ''insufficient_data''"
| "status (Complete _) = ''complete''"

section \<open>Bounded stores\<close>

text \<open>
  The slice \<^verbatim>\<open>xs[-n:]\<close> for a positive \<open>n\<close>: the last \<open>n\<close> elements, the whole list
  when it is shorter.
\<close>

definition py_last_n :: "nat \<Rightarrow> 'a list \<Rightarrow> 'a list" where
  "py_last_n n xs = drop (length xs - n) xs"

definition telemetry_entry :: "double \<Rightarrow> TelemetryBatch \<Rightarrow> stored_batch" where
  "telemetry_entry now batch =
     \<lparr>device_id = device_id batch, encrypted_data = encrypted_data batch,
      batch_start = batch_start batch, batch_end = batch_end batch,
      sample_count = sample_count batch, received_at = now\<rparr>"

text \<open>
  \<^verbatim>\<open>upload_telemetry\<close>. The two readings of \<^verbatim>\<open>time.time()\<close> are the arguments
  \<open>t0\<close> and \<open>t1\<close>; the global list is passed in and returned.
\<close>

definition upload_telemetry ::
  "double \<Rightarrow> double \<Rightarrow> stored_batch list \<Rightarrow> TelemetryBatch \<Rightarrow> stored_batch list \<times> upload_response" where
  "upload_telemetry t0 t1 TELEMETRY_STORE batch =
     (let s1 = TELEMETRY_STORE @ [telemetry_entry t0 batch];
          s2 = (if length s1 > 10000 then py_last_n 10000 s1 else s1)
      in (s2, \<lparr>up_status = ''success'', batch_id = length s2,
                up_received_at = t1, batches_stored = length s2\<rparr>))"

definition threat_entry :: "double \<Rightarrow> ThreatReport \<Rightarrow> stored_threat" where
  "threat_entry now threat =
     \<lparr>threat_level = threat_level threat, confidence = confidence threat,
      indicators = indicators threat, recommendations = recommendations threat,
      timestamp = timestamp threat, reported_at = now\<rparr>"

text \<open>\<^verbatim>\<open>report_threat\<close>, with the reading of the clock as \<open>t0\<close>.\<close>

definition report_threat ::
  "double \<Rightarrow> stored_threat list \<Rightarrow> ThreatReport \<Rightarrow> stored_threat list \<times> report_response" where
  "report_threat t0 THREAT_DATABASE threat =
     (let s1 = THREAT_DATABASE @ [threat_entry t0 threat];
          s2 = (if length s1 > 1000 then py_last_n 1000 s1 else s1)
      in (s2, \<lparr>rp_status = ''accepted'', threat_id = length s2,
                distributed_to_network = True\<rparr>))"

text \<open>
  A run of the service from its start, where both stores are empty: the uploads, each
  with its two clock readings, and the reports, each with its clock reading, in the
  order they complete.
\<close>

definition uploads :: "(double \<times> double \<times> TelemetryBatch) list \<Rightarrow> stored_batch list" where
  "uploads ops = fold (\<lambda>(t0, t1, b) s. fst (upload_telemetry t0 t1 s b)) ops []"

definition reports :: "(double \<times> ThreatReport) list \<Rightarrow> stored_threat list" where
  "reports ops = fold (\<lambda>(t0, r) s. fst (report_threat t0 s r)) ops []"

section \<open>Analysis\<close>

text \<open>
  The parts of \<^verbatim>\<open>request_analysis\<close>, in the order of the source. First the gaps: for
  each \<open>i\<close> from 1, the start of batch \<open>i\<close> minus the end of batch \<open>i - 1\<close>.
\<close>

definition batch_intervals :: "stored_batch list \<Rightarrow> double list" where
  "batch_intervals device_batches =
     map (\<lambda>(p, c). fsub (batch_start c) (batch_end p)) (zip device_batches (tl device_batches))"

text \<open>The test of the loop over \<^verbatim>\<open>enumerate(batch_intervals)\<close>.\<close>

definition unusual :: "double \<Rightarrow> double \<Rightarrow> double \<Rightarrow> bool" where
  "unusual mean_interval std_interval interval =
     fgt (fabs (fsub interval mean_interval)) (fmul (Fin 3) std_interval)"

definition gap_message :: "nat \<Rightarrow> string" where
  "gap_message i = ''Unusual gap in telemetry at batch '' @ str_nat i"

definition detect_anomalies :: "double list \<Rightarrow> string list" where
  "detect_anomalies intervals =
     (if intervals \<noteq> [] then
        (let mean_interval = np_mean intervals;
             std_interval = np_std intervals
         in map (\<lambda>(i, interval). gap_message i)
              (filter (\<lambda>(i, interval). unusual mean_interval std_interval interval)
                 (enumerate 0 intervals)))
      else [])"

text \<open>Threat scoring: the score starts at \<open>0.0\<close> and the two terms are added in turn.\<close>

definition score_of :: "string list \<Rightarrow> nat \<Rightarrow> int \<Rightarrow> double" where
  "score_of anomalies batch_count hours =
     (let s0 = Fin 0;
          s1 = (if anomalies \<noteq> []
                then fadd s0 (py_min (lit (3/10)) (fmul (float_of_len (length anomalies)) (lit (1/10))))
                else s0);
          s2 = (if int batch_count < hours * 6 then fadd s1 (lit (2/10)) else s1)
      in s2)"

text \<open>
  The two terms of the score as the specification words them: the anomaly term
  \<^verbatim>\<open>min(0.3, len(anomalies) * 0.1)\<close>, or 0 without anomalies, and the density term 0.2
  when fewer than 6 batches per hour were matched, or 0.
\<close>

definition anomaly_term :: "string list \<Rightarrow> double" where
  "anomaly_term anomalies =
     (if anomalies \<noteq> [] then py_min (lit (3/10)) (fmul (float_of_len (length anomalies)) (lit (1/10)))
      else Fin 0)"

definition density_term :: "nat \<Rightarrow> int \<Rightarrow> double" where
  "density_term batch_count hours = (if int batch_count < hours * 6 then lit (2/10) else Fin 0)"

definition level_of :: "double \<Rightarrow> string" where
  "level_of threat_score =
     (if fgt threat_score (lit (7/10)) then ''CRITICAL''
      else if fgt threat_score (lit (5/10)) then ''HIGH''
      else if fgt threat_score (lit (3/10)) then ''MODERATE''
      else ''LOW'')"

definition recommend :: "string list \<Rightarrow> nat \<Rightarrow> string \<Rightarrow> string list" where
  "recommend anomalies batch_count level =
     (let r0 = [];
          r1 = (if anomalies \<noteq> []
                then r0 @ [''Investigate telemetry gaps for possible interference''] else r0);
          r2 = (if batch_count < 10
                then r1 @ [''Continue baseline collection for improved accuracy''] else r1);
          r3 = (if level \<in> set [''HIGH'', ''CRITICAL'']
                then r2 @ [''Enable enhanced monitoring mode'',
                           ''Review device for surveillance indicators'']
                else r2)
      in r3)"

text \<open>
  The confidence \<^verbatim>\<open>min(0.95, total_samples / 10000)\<close>. The division of two integers
  is the one step of the analysis that can raise.
\<close>

definition confidence_of :: "int \<Rightarrow> error + double" where
  "confidence_of total_samples =
     (case py_truediv total_samples 10000 of
        Inl e \<Rightarrow> Inl e
      | Inr c \<Rightarrow> Inr (py_min (lit (95/100)) c))"

text \<open>
  What follows the check for an empty match, given the matched batches, the hours of the
  request and the last reading of the clock.
\<close>

definition analyse :: "double \<Rightarrow> int \<Rightarrow> stored_batch list \<Rightarrow> error + analysis_response" where
  "analyse t1 hours device_batches =
     (let total_samples = sum_list (map sample_count device_batches);
          batch_count = length device_batches;
          anomalies = detect_anomalies (batch_intervals device_batches);
          threat_score = score_of anomalies batch_count hours;
          level = level_of threat_score;
          recs = recommend anomalies batch_count level
      in case confidence_of total_samples of
           Inl e \<Rightarrow> Inl e
         | Inr c \<Rightarrow>
             Inr (Complete
               \<lparr>an_threat_level = level, an_threat_score = threat_score,
                an_confidence = c,
                an_hours = hours, an_batches_analyzed = batch_count,
                an_total_samples = total_samples, an_indicators = anomalies,
                an_recommendations = (if recs \<noteq> [] then recs else [''Continue normal operation'']),
                an_timestamp = t1\<rparr>))"

text \<open>The batches of the device that arrived after the cutoff.\<close>

definition matching :: "stored_batch list \<Rightarrow> string \<Rightarrow> double \<Rightarrow> stored_batch list" where
  "matching TELEMETRY_STORE dev cutoff_time =
     filter (\<lambda>b. device_id b = dev \<and> fgt (received_at b) cutoff_time) TELEMETRY_STORE"

text \<open>
  \<^verbatim>\<open>request_analysis\<close>, with the two readings of the clock as \<open>t0\<close> and \<open>t1\<close>. The
  product \<^verbatim>\<open>req.time_range_hours * 3600\<close> raises on \<^verbatim>\<open>None\<close>, and the subtraction
  from the clock converts it to a float.
\<close>

definition request_analysis ::
  "double \<Rightarrow> double \<Rightarrow> stored_batch list \<Rightarrow> AnalysisRequest \<Rightarrow> error + analysis_response" where
  "request_analysis t0 t1 TELEMETRY_STORE req =
     (case time_range_hours req of
        None \<Rightarrow> Inl TypeError
      | Some hours \<Rightarrow>
          (case py_float (hours * 3600) of
             Inl e \<Rightarrow> Inl e
           | Inr window \<Rightarrow>
               (let cutoff_time = fsub t0 window;
                    device_batches = matching TELEMETRY_STORE (req_device_id req) cutoff_time
                in if device_batches = [] then
                     Inr (Insufficient
                       \<lparr>message = ''No telemetry in last '' @ str_int hours @ '' hours'',
                        recommendation = ''Continue baseline collection''\<rparr>)
                   else analyse t1 hours device_batches)))"

section \<open>Forensic report\<close>


record forensic_report =
  report_type :: string
  generated_at :: string
  fr_device_id :: string
  period_start :: string
  period_end :: string
  duration_hours :: double
  total_batches :: nat
  total_samples :: int
  encryption :: string
  chain_of_custody :: string
  surveillance_indicators :: "string list"
  interference_events :: "string list"
  anomalous_patterns :: "string list"
  admissible :: bool
  standard :: string
  integrity_verified :: bool


section \<open>Sample data\<close>

text \<open>A store with one batch of device \<open>d1\<close>, a request for its last 24 hours, and the
  analysis the request gives at the clock readings 1000000 and 1000001.\<close>

definition one_batch_store :: "int \<Rightarrow> stored_batch list" where
  "one_batch_store n =
     [\<lparr>device_id = ''d1'', encrypted_data = ''gAAAAAB'', batch_start = Fin 10, batch_end = Fin 20,
       sample_count = n, received_at = Fin 999000\<rparr>]"

definition day_request :: AnalysisRequest where
  "day_request = \<lparr>req_device_id = ''d1'', time_range_hours = Some 24\<rparr>"

definition one_batch_analysis :: "int \<Rightarrow> double \<Rightarrow> analysis" where
  "one_batch_analysis n c =
     \<lparr>an_threat_level = ''LOW'', an_threat_score = Fin (3602879701896397 / 18014398509481984),
      an_confidence = c, an_hours = 24, an_batches_analyzed = 1, an_total_samples = n,
      an_indicators = [],
      an_recommendations = [''Continue baseline collection for improved accuracy''],
      an_timestamp = Fin 1000001\<rparr>"

text \<open>
  A batch of device \<open>d1\<close> covering a given period, and the conversion of a host in the
  UTC zone at the two instants the sample periods use.
\<close>

definition period_batch :: "real \<Rightarrow> real \<Rightarrow> stored_batch" where
  "period_batch s e =
     \<lparr>device_id = ''d1'', encrypted_data = ''gAAAAAB'', batch_start = Fin s, batch_end = Fin e,
      sample_count = 60, received_at = Fin 999000\<rparr>"


text \<open>
  Eighteen batches of device \<open>d1\<close>, each nine minutes long and a minute after the one
  before, but for the seventh, which starts 77 seconds after the sixth ends; and the
  seventeen gaps between them.
\<close>

definition outlier_run :: "stored_batch list" where
  "outlier_run =
     [period_batch 0 540,
      period_batch 600 1140,
      period_batch 1200 1740,
      period_batch 1800 2340,
      period_batch 2400 2940,
      period_batch 3000 3540,
      period_batch 3617 4157,
      period_batch 4217 4757,
      period_batch 4817 5357,
      period_batch 5417 5957,
      period_batch 6017 6557,
      period_batch 6617 7157,
      period_batch 7217 7757,
      period_batch 7817 8357,
      period_batch 8417 8957,
      period_batch 9017 9557,
      period_batch 9617 10157,
      period_batch 10217 10757]"

definition outlier_gaps :: "double list" where
  "outlier_gaps = [Fin 60, Fin 60, Fin 60, Fin 60, Fin 60, Fin 77, Fin 60, Fin 60, Fin 60, Fin 60, Fin 60, Fin 60, Fin 60, Fin 60, Fin 60, Fin 60, Fin 60]"

text \<open>
  A gap of \<open>0.1 * 2 ** -500\<close> seconds, the sum and the mean that numpy computes for three
  such gaps, and four batches without duration that lie this gap apart.
\<close>

definition tiny_gap :: real where
  "tiny_gap = 3602879701896397 / 36028797018963968 * 2 powi (- 500)"

definition tiny_total :: real where
  "tiny_total = 1351079888211149 / 4503599627370496 * 2 powi (- 500)"

definition tiny_mean :: real where
  "tiny_mean = 7205759403792795 / 72057594037927936 * 2 powi (- 500)"



section \<open>Properties of rounding\<close>

lemma blen_floorlog: "blen n = int (floorlog 2 (nat n))"
proof (induction n rule: blen.induct)
  case (1 n)
  show ?case
  proof (cases "n \<le> 0")
    case True
    then show ?thesis by (simp add: floorlog_def)
  next
    case False
    then have "blen n = blen (n div 2) + 1" by simp
    also have "\<dots> = int (floorlog 2 (nat (n div 2))) + 1" using 1 False by simp
    also have "nat (n div 2) = nat n div 2" by (simp add: nat_div_distrib)
    also have "int (floorlog 2 (nat n div 2)) + 1 = int (floorlog 2 (nat n))"
      using False by (subst (2) compute_floorlog) simp
    finally show ?thesis .
  qed
qed

lemma ilog2_floorlog:
  "ilog2 x = (if 1 \<le> x then int (floorlog 2 (nat \<lfloor>x\<rfloor>)) - 1
              else - int (floorlog 2 (nat (\<lceil>1 / x\<rceil> - 1))))"
  by (simp only: ilog2_def blen_floorlog)

lemma rne_of_int: "rne (of_int n) = n"
  by (simp add: rne_def)

lemma rne_floor_le: "\<lfloor>x\<rfloor> \<le> rne x"
  by (simp add: rne_def Let_def)

lemma rne_le_floor1: "rne x \<le> \<lfloor>x\<rfloor> + 1"
  by (simp add: rne_def Let_def)

lemma rne_ge:
  assumes "of_int a \<le> x" shows "a \<le> rne x"
proof -
  from assms have "a \<le> \<lfloor>x\<rfloor>" by (simp add: le_floor_iff)
  then show ?thesis using rne_floor_le [of x] by linarith
qed

lemma rne_le: 
  assumes "x \<le> of_int b" shows "rne x \<le> b"
proof (cases "x = of_int b")
  case True then show ?thesis by (simp add: rne_of_int)
next
  case False
  with assms have "x < of_int b" by simp
  then have "\<lfloor>x\<rfloor> < b" by (simp add: floor_less_iff)
  then show ?thesis using rne_le_floor1 [of x] by linarith
qed

lemma rne_mono:
  assumes "x \<le> y" shows "rne x \<le> rne y"
proof (cases "\<lfloor>x\<rfloor> = \<lfloor>y\<rfloor>")
  case True
  with assms show ?thesis by (auto simp: rne_def Let_def)
next
  case False
  with assms have "\<lfloor>x\<rfloor> < \<lfloor>y\<rfloor>" using floor_mono [of x y] by linarith
  then show ?thesis using rne_le_floor1 [of x] rne_floor_le [of y] by linarith
qed

lemma nat_pow_real_le: "(2::nat) ^ j \<le> n \<Longrightarrow> (2::real) ^ j \<le> real n"
proof -
  assume "(2::nat) ^ j \<le> n"
  then have "real (2 ^ j) \<le> real n" by (simp only: of_nat_le_iff)
  then show ?thesis by simp
qed

lemma nat_pow_real_less: "n < (2::nat) ^ j \<Longrightarrow> real n + 1 \<le> (2::real) ^ j"
proof -
  assume "n < (2::nat) ^ j"
  then have "Suc n \<le> 2 ^ j" by simp
  then have "real (Suc n) \<le> real (2 ^ j)" by (simp only: of_nat_le_iff)
  then show ?thesis by simp
qed

lemma floorlog2_bounds:
  assumes "0 < n" 
  shows "0 < floorlog 2 n" and "(2::real) ^ (floorlog 2 n - 1) \<le> real n"
    and "real n + 1 \<le> (2::real) ^ floorlog 2 n"
proof -
  have b: "2 ^ (floorlog 2 n - 1) \<le> n \<and> n < 2 ^ floorlog 2 n"
    by (rule floorlog_bounds) (use assms in simp_all)
  show "0 < floorlog 2 n" using assms by (simp add: floorlog_def)
  show "(2::real) ^ (floorlog 2 n - 1) \<le> real n" using b by (simp add: nat_pow_real_le)
  show "real n + 1 \<le> (2::real) ^ floorlog 2 n" using b by (simp add: nat_pow_real_less)
qed

lemma powi_pred: "0 < k \<Longrightarrow> (2::real) powi (int k - 1) = 2 ^ (k - 1)"
proof -
  assume "0 < k"
  then have "int k - 1 = int (k - 1)" by simp
  then show ?thesis by (simp only: power_int_of_nat)
qed

lemma powi_neg: "(2::real) powi (- int k) = 1 / 2 ^ k"
  by (simp add: power_int_minus inverse_eq_divide)

lemma powi_neg_succ: "0 < k \<Longrightarrow> (2::real) powi (- int k + 1) = 1 / 2 ^ (k - 1)"
proof -
  assume "0 < k"
  then have "- int k + 1 = - int (k - 1)" by simp
  then show ?thesis by (simp only: powi_neg)
qed

lemma ilog2_bounds_ge1:
  assumes "1 \<le> x"
  shows "(2::real) powi ilog2 x \<le> x \<and> x < 2 powi (ilog2 x + 1)"
proof -
  define n where "n = nat \<lfloor>x\<rfloor>"
  have fl: "1 \<le> \<lfloor>x\<rfloor>" using assms by (simp add: le_floor_iff)
  then have n0: "0 < n" by (simp add: n_def)
  have "real n = of_int \<lfloor>x\<rfloor>" using fl by (simp add: n_def)
  then have n: "real n \<le> x" "x < real n + 1" by linarith+
  define k where "k = floorlog 2 n"
  note b = floorlog2_bounds [OF n0, folded k_def]
  have il: "ilog2 x = int k - 1" using assms by (simp add: ilog2_floorlog n_def k_def)
  have "(2::real) powi (int k - 1 + 1) = 2 ^ k" by simp
  then show ?thesis using n b powi_pred [OF b(1)] unfolding il by linarith
qed

lemma ilog2_bounds_lt1:
  assumes "0 < x" "x < 1"
  shows "(2::real) powi ilog2 x \<le> x \<and> x < 2 powi (ilog2 x + 1)"
proof -
  define y where "y = 1 / x"
  have y: "1 < y" using assms by (simp add: y_def)
  define m where "m = nat (\<lceil>y\<rceil> - 1)"
  have ce: "2 \<le> \<lceil>y\<rceil>" using y by (simp add: le_ceiling_iff)
  then have m0: "0 < m" by (simp add: m_def)
  have "real m = of_int \<lceil>y\<rceil> - 1" using ce by (simp add: m_def)
  then have m: "real m < y" "y \<le> real m + 1" by linarith+
  define k where "k = floorlog 2 m"
  note b = floorlog2_bounds [OF m0, folded k_def]
  have il: "ilog2 x = - int k" using assms by (simp add: ilog2_floorlog m_def k_def y_def)
  have ylo: "2 ^ (k - 1) < y" and yhi: "y \<le> 2 ^ k" using b m by linarith+
  have x: "x = 1 / y" using assms by (simp add: y_def)
  have "1 / 2 ^ k \<le> 1 / y" using yhi y by (intro divide_left_mono) simp_all
  moreover have "1 / y < 1 / 2 ^ (k - 1)" using ylo y by (intro divide_strict_left_mono) simp_all
  moreover have "(2::real) powi ilog2 x = 1 / 2 ^ k" by (simp only: il powi_neg)
  moreover have "(2::real) powi (ilog2 x + 1) = 1 / 2 ^ (k - 1)"
    by (simp only: il powi_neg_succ [OF b(1)])
  ultimately show ?thesis using x by simp
qed

lemma ilog2_bounds:
  assumes "0 < x"
  shows "(2::real) powi ilog2 x \<le> x" and "x < (2::real) powi (ilog2 x + 1)"
  using ilog2_bounds_ge1 [of x] ilog2_bounds_lt1 [of x] assms by (cases "1 \<le> x"; simp)+


lemma ilog2_mono:
  assumes "0 < x" "x \<le> y" shows "ilog2 x \<le> ilog2 y"
proof (rule ccontr)
  assume "\<not> ilog2 x \<le> ilog2 y"
  then have "ilog2 y + 1 \<le> ilog2 x" by simp
  then have "(2::real) powi (ilog2 y + 1) \<le> 2 powi ilog2 x"
    by (intro power_int_increasing) simp_all
  moreover have "2 powi ilog2 x \<le> x" using assms by (intro ilog2_bounds)
  moreover have "y < 2 powi (ilog2 y + 1)" using assms by (intro ilog2_bounds) simp
  ultimately show False using assms by linarith
qed

lemma ilog2_unique:
  assumes "(2::real) powi k \<le> x" "x < 2 powi (k + 1)"
  shows "ilog2 x = k"
proof -
  have x: "0 < x" using assms(1) zero_less_power_int [of "2::real" k] by linarith
  have "ilog2 x < k + 1"
  proof (rule ccontr)
    assume "\<not> ilog2 x < k + 1"
    then have "(2::real) powi (k + 1) \<le> 2 powi ilog2 x"
      by (intro power_int_increasing) simp_all
    then show False using ilog2_bounds(1) [OF x] assms by linarith
  qed
  moreover have "k < ilog2 x + 1"
  proof (rule ccontr)
    assume "\<not> k < ilog2 x + 1"
    then have "(2::real) powi (ilog2 x + 1) \<le> 2 powi k"
      by (intro power_int_increasing) simp_all
    then show False using ilog2_bounds(2) [OF x] assms by linarith
  qed
  ultimately show ?thesis by simp
qed

lemma quantum_pos: "0 < quantum x"
  by (simp add: quantum_def)

lemma powi_52: "(2::real) powi c = 2 ^ 52 * 2 powi (c - 52)"
proof -
  have "(2::real) powi (52 + (c - 52)) = 2 powi 52 * 2 powi (c - 52)"
    by (rule power_int_add) simp
  then show ?thesis by simp
qed

lemma powi_53: "(2::real) powi (c + 1) = 2 ^ 53 * 2 powi (c - 52)"
proof -
  have "(2::real) powi (53 + (c - 52)) = 2 powi 53 * 2 powi (c - 52)"
    by (rule power_int_add) simp
  then show ?thesis by (simp add: add.commute)
qed

lemma below_next_binade:
  assumes "0 < x" shows "x < 2 powi (cexp x + 1)"
proof -
  have "(2::real) powi (ilog2 x + 1) \<le> 2 powi (cexp x + 1)"
    by (intro power_int_increasing) (simp_all add: cexp_def)
  then show ?thesis using ilog2_bounds(2) [OF assms] by linarith
qed

lemma round_pos_nonneg:
  assumes "0 < x" shows "0 \<le> round_pos x"
proof -
  have "0 \<le> x / quantum x" using assms quantum_pos [of x] by simp
  then have "0 \<le> rne (x / quantum x)" by (intro rne_ge) simp
  then show ?thesis using quantum_pos [of x] by (simp add: round_pos_def)
qed

lemma round_pos_le:
  assumes "0 < x" shows "round_pos x \<le> 2 powi (cexp x + 1)"
proof -
  let ?q = "quantum x"
  have "x < 2 ^ 53 * ?q" using below_next_binade [OF assms] powi_53 [of "cexp x"]
    by (simp add: quantum_def)
  then have "x / ?q \<le> of_int (2 ^ 53)" using quantum_pos [of x]
    by (simp add: pos_divide_le_eq)
  then have "rne (x / ?q) \<le> 2 ^ 53" by (rule rne_le)
  then have "real_of_int (rne (x / ?q)) \<le> real_of_int (2 ^ 53)" by (simp only: of_int_le_iff)
  then have "real_of_int (rne (x / ?q)) \<le> 2 ^ 53" by simp
  then have "real_of_int (rne (x / ?q)) * ?q \<le> 2 ^ 53 * ?q"
    using quantum_pos [of x] by (intro mult_right_mono) simp_all
  then show ?thesis using powi_53 [of "cexp x"] by (simp add: round_pos_def quantum_def)
qed

lemma round_pos_ge:
  assumes "0 < x" "- 1022 \<le> ilog2 x" shows "2 powi cexp x \<le> round_pos x"
proof -
  let ?q = "quantum x"
  have c: "cexp x = ilog2 x" using assms by (simp add: cexp_def)
  have "2 ^ 52 * ?q \<le> x" using ilog2_bounds(1) [OF assms(1)] powi_52 [of "cexp x"] c
    by (simp add: quantum_def)
  then have "of_int (2 ^ 52) \<le> x / ?q" using quantum_pos [of x]
    by (simp add: pos_le_divide_eq)
  then have "2 ^ 52 \<le> rne (x / ?q)" by (rule rne_ge)
  then have "real_of_int (2 ^ 52) \<le> real_of_int (rne (x / ?q))" by (simp only: of_int_le_iff)
  then have "2 ^ 52 \<le> real_of_int (rne (x / ?q))" by simp
  then have "2 ^ 52 * ?q \<le> real_of_int (rne (x / ?q)) * ?q"
    using quantum_pos [of x] by (intro mult_right_mono) simp_all
  then show ?thesis using powi_52 [of "cexp x"] by (simp add: round_pos_def quantum_def)
qed

lemma round_pos_mono:
  assumes "0 < x" "x \<le> y" shows "round_pos x \<le> round_pos y"
proof -
  have y: "0 < y" using assms by simp
  have le: "cexp x \<le> cexp y" using ilog2_mono [OF assms] by (simp add: cexp_def)
  show ?thesis
  proof (cases "cexp x = cexp y")
    case True
    then have q: "quantum x = quantum y" by (simp add: quantum_def)
    have "x / quantum y \<le> y / quantum y" using assms quantum_pos [of y]
      by (simp add: divide_right_mono)
    then have "rne (x / quantum y) \<le> rne (y / quantum y)" by (rule rne_mono)
    then have "real_of_int (rne (x / quantum y)) \<le> real_of_int (rne (y / quantum y))" by simp
    then show ?thesis using quantum_pos [of y] unfolding round_pos_def q
      by (intro mult_right_mono) simp_all
  next
    case False
    with le have lt: "cexp x + 1 \<le> cexp y" by simp
    then have "- 1022 \<le> ilog2 y" by (simp add: cexp_def max_def split: if_splits)
    then have "2 powi cexp y \<le> round_pos y" using y by (intro round_pos_ge)
    moreover have "(2::real) powi (cexp x + 1) \<le> 2 powi cexp y"
      using lt by (intro power_int_increasing) simp_all
    ultimately show ?thesis using round_pos_le [OF assms(1)] by linarith
  qed
qed

lemma round_pos_idem:
  assumes "0 < x" "0 < round_pos x" shows "round_pos (round_pos x) = round_pos x"
proof -
  define y where "y = round_pos x"
  define c where "c = cexp x"
  define m where "m = rne (x / quantum x)"
  have y: "y = of_int m * 2 powi (c - 52)"
    by (simp add: y_def round_pos_def m_def quantum_def c_def)
  have ypos: "0 < y" using assms by (simp add: y_def)
  have le: "y \<le> 2 powi (c + 1)" using round_pos_le [OF assms(1)] by (simp add: y_def c_def)
  have c: "- 1022 \<le> c" by (simp add: c_def cexp_def)
  show ?thesis
  proof (cases "y = 2 powi (c + 1)")
    case True
    have "ilog2 y = c + 1" unfolding True
      by (intro ilog2_unique order_refl power_int_strict_increasing) simp_all
    then have cy: "cexp y = c + 1" using c by (simp add: cexp_def)
    have q: "quantum y = 2 powi (c + 1 - 52)" by (simp add: quantum_def cy)
    have "y = 2 powi (c + 1)" by (rule True)
    also have "\<dots> = 2 ^ 52 * 2 powi (c + 1 - 52)" by (rule powi_52)
    also have "\<dots> = 2 ^ 52 * quantum y" by (simp only: q)
    finally have yq: "y = 2 ^ 52 * quantum y" .
    have "y / quantum y = of_int (2 ^ 52)"
      by (subst yq) (use quantum_pos [of y] in simp)
    then have "rne (y / quantum y) = 2 ^ 52" by (simp only: rne_of_int)
    then have "round_pos y = 2 ^ 52 * quantum y" by (simp add: round_pos_def)
    then show ?thesis using yq by (simp add: y_def)
  next
    case False
    with le have lt: "y < 2 powi (c + 1)" by simp
    have "ilog2 y < c + 1"
    proof (rule ccontr)
      assume "\<not> ilog2 y < c + 1"
      then have "(2::real) powi (c + 1) \<le> 2 powi ilog2 y"
        by (intro power_int_increasing) simp_all
      then show False using ilog2_bounds(1) [OF ypos] lt by linarith
    qed
    then have up: "cexp y \<le> c" using c by (simp add: cexp_def)
    have "c \<le> cexp y"
    proof (cases "- 1022 \<le> ilog2 x")
      case True
      then have "2 powi c \<le> y" using round_pos_ge [OF assms(1)] by (simp add: y_def c_def)
      then have "ilog2 (2 powi c) \<le> ilog2 y" by (intro ilog2_mono) simp_all
      moreover have "ilog2 ((2::real) powi c) = c"
        by (intro ilog2_unique order_refl power_int_strict_increasing) simp_all
      ultimately show ?thesis by (simp add: cexp_def)
    next
      case False
      then have "c = - 1022" by (simp add: c_def cexp_def)
      then show ?thesis by (simp add: cexp_def)
    qed
    with up have cy: "cexp y = c" by simp
    have q: "quantum y = 2 powi (c - 52)" by (simp add: quantum_def cy)
    have "y = of_int m * 2 powi (c - 52)" by (rule y)
    also have "\<dots> = of_int m * quantum y" by (simp only: q)
    finally have yq: "y = of_int m * quantum y" .
    have "y / quantum y = of_int m"
      by (subst yq) (use quantum_pos [of y] in simp)
    then have "rne (y / quantum y) = m" by (simp only: rne_of_int)
    then have "round_pos y = of_int m * quantum y" by (simp add: round_pos_def)
    then show ?thesis using yq by (simp add: y_def)
  qed
qed

lemma rnd_zero: "rnd 0 = 0"
  by (simp add: rnd_def)

lemma rnd_minus: "rnd (- x) = - rnd x"
  by (simp add: rnd_def)

lemma rnd_nonneg: "0 \<le> x \<Longrightarrow> 0 \<le> rnd x"
  using round_pos_nonneg [of x] by (simp add: rnd_def)

lemma rnd_mono:
  assumes "x \<le> y" shows "rnd x \<le> rnd y"
proof -
  consider "0 < x" | "x \<le> 0" "0 \<le> y" | "y < 0" by linarith
  then show ?thesis
  proof cases
    case 1
    then show ?thesis using assms round_pos_mono [of x y] by (simp add: rnd_def)
  next
    case 2
    have "rnd x \<le> 0" using rnd_nonneg [of "- x"] 2 by (simp add: rnd_minus)
    then show ?thesis using rnd_nonneg [of y] 2 by linarith
  next
    case 3
    then show ?thesis using assms round_pos_mono [of "- y" "- x"] by (simp add: rnd_def)
  qed
qed

lemma rnd_idem: "rnd (rnd x) = rnd x"
proof -
  have pos: "rnd (rnd z) = rnd z" if "0 < z" for z
  proof (cases "round_pos z = 0")
    case True
    then show ?thesis using that by (simp add: rnd_def)
  next
    case False
    then have "0 < round_pos z" using round_pos_nonneg [OF that] by simp
    then show ?thesis using that round_pos_idem [of z] by (simp add: rnd_def)
  qed
  consider "0 < x" | "x = 0" | "x < 0" by linarith
  then show ?thesis
  proof cases
    case 1 then show ?thesis by (rule pos)
  next
    case 2 then show ?thesis by (simp add: rnd_def)
  next
    case 3
    then have "rnd (rnd (- x)) = rnd (- x)" by (intro pos) simp
    then show ?thesis by (simp add: rnd_minus)
  qed
qed

section \<open>Bounded stores: proofs\<close>

lemma py_last_n_snoc:
  assumes "0 < n"
  shows "py_last_n n (py_last_n n xs @ [x]) = py_last_n n (xs @ [x])"
proof (cases "length xs \<le> n")
  case True
  then show ?thesis by (simp add: py_last_n_def)
next
  case False
  then have "Suc (length xs) - (length xs - n + n) = 1"
    and "Suc (length xs) - n = Suc (length xs - n)"
    using assms by arith+
  then show ?thesis using False by (simp add: py_last_n_def)
qed

lemma py_last_n_short: "length xs \<le> n \<Longrightarrow> py_last_n n xs = xs"
  by (simp add: py_last_n_def)

lemma length_py_last_n: "length (py_last_n n xs) = min n (length xs)"
  by (simp add: py_last_n_def)

lemma upload_step:
  "fst (upload_telemetry t0 t1 (py_last_n 10000 es) b)
     = py_last_n 10000 (es @ [telemetry_entry t0 b])"
proof -
  let ?s1 = "py_last_n 10000 es @ [telemetry_entry t0 b]"
  have "(if length ?s1 > 10000 then py_last_n 10000 ?s1 else ?s1) = py_last_n 10000 ?s1"
    by (simp add: py_last_n_short)
  then show ?thesis
    by (simp add: upload_telemetry_def Let_def py_last_n_snoc)
qed

lemma report_step:
  "fst (report_threat t0 (py_last_n 1000 es) r)
     = py_last_n 1000 (es @ [threat_entry t0 r])"
proof -
  let ?s1 = "py_last_n 1000 es @ [threat_entry t0 r]"
  have "(if length ?s1 > 1000 then py_last_n 1000 ?s1 else ?s1) = py_last_n 1000 ?s1"
    by (simp add: py_last_n_short)
  then show ?thesis
    by (simp add: report_threat_def Let_def py_last_n_snoc)
qed

lemma uploads_eq:
  "uploads ops = py_last_n 10000 (map (\<lambda>(t0, t1, b). telemetry_entry t0 b) ops)"
proof (induction ops rule: rev_induct)
  case Nil
  show ?case by (simp add: uploads_def py_last_n_def)
next
  case (snoc x ops)
  obtain t0 t1 b where x: "x = (t0, t1, b)" by (cases x)
  have "uploads (ops @ [x]) = fst (upload_telemetry t0 t1 (uploads ops) b)"
    by (simp add: uploads_def x)
  then show ?case using snoc by (simp add: upload_step x)
qed

lemma reports_eq:
  "reports ops = py_last_n 1000 (map (\<lambda>(t0, r). threat_entry t0 r) ops)"
proof (induction ops rule: rev_induct)
  case Nil
  show ?case by (simp add: reports_def py_last_n_def)
next
  case (snoc x ops)
  obtain t0 r where x: "x = (t0, r)" by (cases x)
  have "reports (ops @ [x]) = fst (report_threat t0 (reports ops) r)"
    by (simp add: reports_def x)
  then show ?case using snoc by (simp add: report_step x)
qed

text \<open>
  Claim C5. After any sequence of uploads the telemetry store holds at most 10000
  entries, and after any sequence of reports the threat store holds at most 1000. Each
  store is exactly the most recent entries of everything inserted, in insertion order:
  what is dropped is a prefix (the oldest entries) and the survivors keep their order.
  A sequence of operations includes each of its prefixes, so this holds after every
  completed insert.
\<close>

theorem stores_bounded_oldest_evicted:
  "length (uploads us) \<le> 10000
   \<and> uploads us = drop (length us - 10000) (map (\<lambda>(t0, t1, b). telemetry_entry t0 b) us)
   \<and> length (reports rs) \<le> 1000
   \<and> reports rs = drop (length rs - 1000) (map (\<lambda>(t0, r). threat_entry t0 r) rs)"
proof -
  have "length us - (length us - 10000) \<le> 10000"
    and "length rs - (length rs - 1000) \<le> 1000"
    by arith+
  then show ?thesis
    by (simp add: uploads_eq reports_eq py_last_n_def)
qed


section \<open>Evaluating the literals of the source\<close>

lemma fround_Fin:
  assumes "rnd x = y" "\<bar>y\<bar> < 2 ^ 1024"
  shows "fround x = Fin y"
proof (cases "y = 0")
  case True
  then show ?thesis using assms by (simp add: fround_def)
next
  case False
  then have pos: "0 < \<bar>y\<bar>" by simp
  have "\<not> 1024 \<le> ilog2 \<bar>y\<bar>"
  proof
    assume "1024 \<le> ilog2 \<bar>y\<bar>"
    then have "(2::real) powi 1024 \<le> 2 powi ilog2 \<bar>y\<bar>"
      by (intro power_int_increasing) simp_all
    then have "(2::real) ^ 1024 \<le> \<bar>y\<bar>" using ilog2_bounds(1) [OF pos] by simp
    then show False using assms(2) by linarith
  qed
  then show ?thesis using assms by (simp add: fround_def)
qed

lemma rnd_01: "rnd (1/10) = 3602879701896397 / 36028797018963968" by code_simp
lemma rnd_02: "rnd (2/10) = 3602879701896397 / 18014398509481984" by code_simp
lemma rnd_03: "rnd (3/10) = 5404319552844595 / 18014398509481984" by code_simp
lemma rnd_05: "rnd (1/2) = 1 / 2" by code_simp
lemma rnd_07: "rnd (7/10) = 3152519739159347 / 4503599627370496" by code_simp
lemma rnd_095: "rnd (95/100) = 4278419646001971 / 4503599627370496" by code_simp

lemma lit_01: "lit (1/10) = Fin (3602879701896397 / 36028797018963968)"
  unfolding lit_def by (rule fround_Fin [OF rnd_01]) simp
lemma lit_02: "lit (2/10) = Fin (3602879701896397 / 18014398509481984)"
  unfolding lit_def by (rule fround_Fin [OF rnd_02]) simp
lemma lit_03: "lit (3/10) = Fin (5404319552844595 / 18014398509481984)"
  unfolding lit_def by (rule fround_Fin [OF rnd_03]) simp
lemma lit_05: "lit (1/2) = Fin (1 / 2)"
  unfolding lit_def by (rule fround_Fin [OF rnd_05]) simp
lemma lit_07: "lit (7/10) = Fin (3152519739159347 / 4503599627370496)"
  unfolding lit_def by (rule fround_Fin [OF rnd_07]) simp
lemma lit_095: "lit (95/100) = Fin (4278419646001971 / 4503599627370496)"
  unfolding lit_def by (rule fround_Fin [OF rnd_095]) simp


section \<open>Threat level\<close>

lemma level_of_Fin:
  "level_of (Fin x) =
     (if 3152519739159347 / 4503599627370496 < x then ''CRITICAL''
      else if 1 / 2 < x then ''HIGH''
      else if 5404319552844595 / 18014398509481984 < x then ''MODERATE'' else ''LOW'')"
  by (simp add: level_of_def fgt_def lit_03 lit_05 lit_07)


text \<open>
  Claim C3. The level of a score is decided by strict comparisons in the order CRITICAL,
  HIGH, MODERATE, LOW, against the doubles that the literals 0.7, 0.5 and 0.3 denote. A
  score of exactly 0.3 is LOW and a score of exactly 0.5 is MODERATE.
\<close>

theorem level_strict_thresholds:
  "level_of s =
     (if fgt s (lit (7/10)) then ''CRITICAL''
      else if fgt s (lit (5/10)) then ''HIGH''
      else if fgt s (lit (3/10)) then ''MODERATE'' else ''LOW'')
   \<and> level_of (Fin x) =
     (if 3152519739159347 / 4503599627370496 < x then ''CRITICAL''
      else if 1 / 2 < x then ''HIGH''
      else if 5404319552844595 / 18014398509481984 < x then ''MODERATE'' else ''LOW'')
   \<and> level_of (lit (3/10)) = ''LOW''
   \<and> level_of (lit (5/10)) = ''MODERATE''"
proof -
  have b: "level_of (lit (3/10)) = ''LOW''"
    unfolding lit_03 level_of_Fin by simp
  have c: "level_of (lit (5/10)) = ''MODERATE''"
    using level_of_Fin [of "1/2"] by (simp add: lit_05)
  show ?thesis using b c level_of_Fin [of x] by (simp add: level_of_def)
qed


section \<open>Requests without data\<close>

lemma ex_window: "py_float (24 * 3600) = Inr (Fin 86400)" by code_simp
lemma ex_cutoff: "fsub (Fin 1000000) (Fin 86400) = Fin 913600" by code_simp
lemma ex_str: "str_int 24 = ''24''" by code_simp


text \<open>
  Claim C6, as amended. When \<^verbatim>\<open>time_range_hours\<close> is an integer whose product with 3600
  converts to a float, so that the cutoff exists, and no stored batch of the device
  arrived after the cutoff, the request succeeds with the result whose status is
  \<^verbatim>\<open>insufficient_data\<close>: no score, level or confidence is computed.
\<close>

theorem no_match_is_insufficient_data:
  assumes "time_range_hours req = Some hours"
    and "py_float (hours * 3600) = Inr window"
    and "matching TELEMETRY_STORE (req_device_id req) (fsub t0 window) = []"
  shows "request_analysis t0 t1 TELEMETRY_STORE req =
           Inr (Insufficient \<lparr>message = ''No telemetry in last '' @ str_int hours @ '' hours'',
                               recommendation = ''Continue baseline collection''\<rparr>)
    \<and> status (Insufficient \<lparr>message = ''No telemetry in last '' @ str_int hours @ '' hours'',
                               recommendation = ''Continue baseline collection''\<rparr>) = ''insufficient_data''"
  using assms by (simp add: request_analysis_def)


theorem no_match_is_insufficient_data_witness:
  "request_analysis (Fin 1000000) (Fin 1000001)
     [\<lparr>device_id = ''d2'', encrypted_data = ''x'', batch_start = Fin 10, batch_end = Fin 20,
       sample_count = 5000, received_at = Fin 999000\<rparr>,
      \<lparr>device_id = ''d1'', encrypted_data = ''y'', batch_start = Fin 10, batch_end = Fin 20,
       sample_count = 70, received_at = Fin 5000\<rparr>]
     \<lparr>req_device_id = ''d1'', time_range_hours = Some 24\<rparr>
   = Inr (Insufficient \<lparr>message = ''No telemetry in last 24 hours'',
                         recommendation = ''Continue baseline collection''\<rparr>)"
proof -
  let ?S = "[\<lparr>device_id = ''d2'', encrypted_data = ''x'', batch_start = Fin 10, batch_end = Fin 20,
       sample_count = 5000, received_at = Fin 999000\<rparr>,
      \<lparr>device_id = ''d1'', encrypted_data = ''y'', batch_start = Fin 10, batch_end = Fin 20,
       sample_count = 70, received_at = Fin 5000\<rparr>]"
  let ?req = "\<lparr>req_device_id = ''d1'', time_range_hours = Some 24\<rparr>"
  have h1: "time_range_hours ?req = Some 24" by simp
  have h3: "matching ?S (req_device_id ?req) (fsub (Fin 1000000) (Fin 86400)) = []"
    by (simp add: ex_cutoff matching_def fgt_def)
  show ?thesis
    using no_match_is_insufficient_data [OF h1 ex_window h3, of "Fin 1000001"]
    by (simp add: ex_str)
qed


text \<open>
  The claim as first stated fails: a request may carry \<^verbatim>\<open>null\<close> for
  \<^verbatim>\<open>time_range_hours\<close>. Against an empty store, where nothing can match, the request
  then ends in the \<^verbatim>\<open>TypeError\<close> of \<^verbatim>\<open>None * 3600\<close> and not in a result.
\<close>

theorem null_hours_raises:
  "request_analysis (Fin 1000000) (Fin 1000001) []
     \<lparr>req_device_id = ''d1'', time_range_hours = None\<rparr> = Inl TypeError
   \<and> filter (\<lambda>b. device_id b = ''d1'') ([] :: stored_batch list) = []"
  by (simp add: request_analysis_def)

section \<open>Recommendations\<close>

lemma ex_score: "fadd (Fin 0) (lit (2/10)) = Fin (3602879701896397 / 18014398509481984)" by code_simp
lemma ex_conf_small: "confidence_of 5000 = Inr (Fin (1/2))" by code_simp
lemma ex_conf_big: "confidence_of 20000 = Inr (Fin (4278419646001971 / 4503599627370496))" by code_simp
lemma ex_level: "level_of (Fin (3602879701896397 / 18014398509481984)) = ''LOW''" by code_simp

lemma ex_run:
  "request_analysis (Fin 1000000) (Fin 1000001) (one_batch_store n) day_request
     = (case confidence_of n of
          Inl e \<Rightarrow> Inl e
        | Inr c \<Rightarrow> Inr (Complete (one_batch_analysis n c)))"
  unfolding request_analysis_def analyse_def score_of_def one_batch_store_def day_request_def
    one_batch_analysis_def
  by (simp add: ex_window [simplified] ex_cutoff matching_def fgt_def batch_intervals_def
      detect_anomalies_def ex_score [simplified] ex_level recommend_def Let_def
      del: One_nat_def split: sum.splits)

lemma ex_run_small:
  "request_analysis (Fin 1000000) (Fin 1000001) (one_batch_store 5000) day_request
     = Inr (Complete (one_batch_analysis 5000 (Fin (1/2))))"
  by (simp add: ex_run ex_conf_small)

lemma ex_run_big:
  "request_analysis (Fin 1000000) (Fin 1000001) (one_batch_store 20000) day_request
     = Inr (Complete (one_batch_analysis 20000 (Fin (4278419646001971 / 4503599627370496))))"
  by (simp add: ex_run ex_conf_big)

text \<open>
  Claim C8. A completed analysis has a non-empty list of recommendations: the entries
  of the conditions that hold, in the fixed order, and the single entry
  \<^verbatim>\<open>Continue normal operation\<close> in place of an empty list.
\<close>

theorem recommendations_never_empty:
  assumes "request_analysis t0 t1 TELEMETRY_STORE req = Inr (Complete r)"
  shows "an_recommendations r \<noteq> []
    \<and> an_recommendations r =
        (let recs = (if an_indicators r \<noteq> [] then [''Investigate telemetry gaps for possible interference''] else [])
                  @ (if an_batches_analyzed r < 10 then [''Continue baseline collection for improved accuracy''] else [])
                  @ (if an_threat_level r = ''HIGH'' \<or> an_threat_level r = ''CRITICAL''
                     then [''Enable enhanced monitoring mode'', ''Review device for surveillance indicators'']
                     else [])
         in if recs = [] then [''Continue normal operation''] else recs)"
proof -
  from assms obtain h bs where a: "analyse t1 h bs = Inr (Complete r)"
    by (auto simp: request_analysis_def Let_def split: option.splits sum.splits if_splits)
  then show ?thesis
    by (auto simp: analyse_def recommend_def Let_def split: sum.splits)
qed


theorem recommendations_never_empty_witness:
  "request_analysis (Fin 1000000) (Fin 1000001) (one_batch_store 5000) day_request
     = Inr (Complete (one_batch_analysis 5000 (Fin (1/2))))
   \<and> an_recommendations (one_batch_analysis 5000 (Fin (1/2))) \<noteq> []
   \<and> an_recommendations (one_batch_analysis 5000 (Fin (1/2)))
       = [''Continue baseline collection for improved accuracy'']"
  using recommendations_never_empty [OF ex_run_small] ex_run_small
  by (simp add: one_batch_analysis_def)

section \<open>Confidence\<close>

lemma py_truediv_Inr: "py_truediv a b = Inr c \<Longrightarrow> c = Fin (rnd (of_int a / of_int b))"
  by (auto simp: py_truediv_def fround_def Let_def split: if_splits double.splits)

lemma confidence_of_Inr:
  assumes "confidence_of t = Inr c"
  shows "c = py_min (lit (95/100)) (Fin (rnd (of_int t / 10000)))"
proof -
  from assms obtain q where q: "py_truediv t 10000 = Inr q" and c: "c = py_min (lit (95/100)) q"
    by (auto simp: confidence_of_def split: sum.splits)
  from py_truediv_Inr [OF q] c show ?thesis by simp
qed

lemma complete_confidence:
  assumes "request_analysis t0 t1 TELEMETRY_STORE req = Inr (Complete r)"
  shows "confidence_of (an_total_samples r) = Inr (an_confidence r)"
    and "\<exists>bs. set bs \<subseteq> set TELEMETRY_STORE \<and> an_total_samples r = sum_list (map sample_count bs)"
proof -
  from assms obtain h c where r: "analyse t1 h (matching TELEMETRY_STORE (req_device_id req) c) = Inr (Complete r)"
    by (auto simp: request_analysis_def Let_def split: option.splits sum.splits if_splits)
  let ?bs = "matching TELEMETRY_STORE (req_device_id req) c"
  from r show "confidence_of (an_total_samples r) = Inr (an_confidence r)"
    by (auto simp: analyse_def Let_def split: sum.splits)
  from r have "an_total_samples r = sum_list (map sample_count ?bs)"
    by (auto simp: analyse_def Let_def split: sum.splits)
  moreover have "set ?bs \<subseteq> set TELEMETRY_STORE" by (auto simp: matching_def)
  ultimately show "\<exists>bs. set bs \<subseteq> set TELEMETRY_STORE \<and> an_total_samples r = sum_list (map sample_count bs)"
    by blast
qed

lemma py_min_Fin: "py_min (Fin a) (Fin b) = Fin (min a b)"
  by (auto simp: py_min_def min_def)

text \<open>
  Claim C9. The confidence of a completed analysis is \<^verbatim>\<open>min(0.95, total_samples / 10000)\<close>,
  the quotient being the correctly rounded one. When no stored sample count is negative
  it is a finite number between 0 and 0.95, and of two completed analyses the one with
  the larger sample total has a confidence at least as large.
\<close>

theorem confidence_bounded_monotone:
  assumes "request_analysis t0 t1 TELEMETRY_STORE req = Inr (Complete r)"
    and "request_analysis t0' t1' TELEMETRY_STORE' req' = Inr (Complete r')"
    and "\<forall>b \<in> set TELEMETRY_STORE. 0 \<le> sample_count b"
    and "an_total_samples r \<le> an_total_samples r'"
  shows "an_confidence r = py_min (lit (95/100)) (Fin (rnd (of_int (an_total_samples r) / 10000)))
    \<and> (\<exists>x. an_confidence r = Fin x \<and> 0 \<le> x \<and> x \<le> 4278419646001971 / 4503599627370496)
    \<and> \<not> flt (an_confidence r') (an_confidence r)"
proof -
  let ?c = "\<lambda>t::int. Fin (min (4278419646001971 / 4503599627370496) (rnd (of_int t / 10000)))"
  have c: "an_confidence r = py_min (lit (95/100)) (Fin (rnd (of_int (an_total_samples r) / 10000)))"
    using complete_confidence(1) [OF assms(1)] by (rule confidence_of_Inr)
  have c': "an_confidence r' = py_min (lit (95/100)) (Fin (rnd (of_int (an_total_samples r') / 10000)))"
    using complete_confidence(1) [OF assms(2)] by (rule confidence_of_Inr)
  obtain bs where bs: "set bs \<subseteq> set TELEMETRY_STORE" "an_total_samples r = sum_list (map sample_count bs)"
    using complete_confidence(2) [OF assms(1)] by blast
  have "0 \<le> sum_list (map sample_count bs)"
    using bs(1) assms(3) by (intro sum_list_nonneg) auto
  then have "0 \<le> real_of_int (an_total_samples r) / 10000" using bs(2) by simp
  then have nn: "0 \<le> rnd (real_of_int (an_total_samples r) / 10000)" by (rule rnd_nonneg)
  have "real_of_int (an_total_samples r) / 10000 \<le> real_of_int (an_total_samples r') / 10000"
    using assms(4) by simp
  then have mono: "rnd (real_of_int (an_total_samples r) / 10000) \<le> rnd (real_of_int (an_total_samples r') / 10000)"
    by (rule rnd_mono)
  have e: "an_confidence r = ?c (an_total_samples r)" "an_confidence r' = ?c (an_total_samples r')"
    unfolding c c' lit_095 py_min_Fin by simp_all
  have "\<exists>x. an_confidence r = Fin x \<and> 0 \<le> x \<and> x \<le> 4278419646001971 / 4503599627370496"
    unfolding e using nn by simp
  moreover have "\<not> flt (an_confidence r') (an_confidence r)"
    unfolding e using mono by simp
  ultimately show ?thesis using c by blast
qed

theorem confidence_bounded_monotone_witness:
  "request_analysis (Fin 1000000) (Fin 1000001) (one_batch_store 5000) day_request
     = Inr (Complete (one_batch_analysis 5000 (Fin (1/2))))
   \<and> request_analysis (Fin 1000000) (Fin 1000001) (one_batch_store 20000) day_request
     = Inr (Complete (one_batch_analysis 20000 (Fin (4278419646001971 / 4503599627370496))))
   \<and> (\<forall>b. b \<in> set (one_batch_store 5000) \<longleftrightarrow> b \<in> set (one_batch_store 5000) \<and> 0 \<le> sample_count b)
   \<and> an_confidence (one_batch_analysis 5000 (Fin (1/2))) = Fin (1/2)
   \<and> an_confidence (one_batch_analysis 5000 (Fin (1/2)))
       = py_min (lit (95/100)) (Fin (rnd (of_int (an_total_samples (one_batch_analysis 5000 (Fin (1/2)))) / 10000)))
   \<and> \<not> flt (an_confidence (one_batch_analysis 20000 (Fin (4278419646001971 / 4503599627370496))))
            (an_confidence (one_batch_analysis 5000 (Fin (1/2))))"
proof -
  have nn: "\<forall>b \<in> set (one_batch_store 5000). 0 \<le> sample_count b"
    by (simp add: one_batch_store_def)
  have le: "an_total_samples (one_batch_analysis 5000 (Fin (1/2)))
      \<le> an_total_samples (one_batch_analysis 20000 (Fin (4278419646001971 / 4503599627370496)))"
    by (simp add: one_batch_analysis_def)
  note th = confidence_bounded_monotone [OF ex_run_small ex_run_big nn le]
  have c: "an_confidence (one_batch_analysis 5000 (Fin (1/2))) = Fin (1/2)"
    by (simp add: one_batch_analysis_def)
  show ?thesis using th nn c ex_run_small ex_run_big by blast
qed


section \<open>Forensic report: proofs\<close>







section \<open>A single gap\<close>

lemma fround_zero: "fround 0 = Fin 0"
  by (simp add: fround_def rnd_zero)


lemma fround_fround:
  assumes "fround z = Fin y" shows "fround y = Fin y"
proof -
  from assms have y: "y = rnd z" and ok: "\<not> (y \<noteq> 0 \<and> 1024 \<le> ilog2 \<bar>y\<bar>)"
    by (auto simp: fround_def Let_def split: if_splits)
  have "rnd y = y" unfolding y by (rule rnd_idem)
  then show ?thesis using ok by (auto simp: fround_def Let_def abs_if)
qed


lemma is_double_fround: "is_double (fround z)"
  by (cases "fround z") (auto simp: is_double_def dest: fround_fround)













section \<open>The sample run with one unusual gap\<close>

lemma outlier_intervals: "batch_intervals outlier_run = outlier_gaps"
  unfolding outlier_run_def outlier_gaps_def period_batch_def by code_simp

lemma outlier_mean: "np_mean outlier_gaps = Fin 61"
  unfolding outlier_gaps_def by code_simp

lemma outlier_variance:
  "fdiv (np_sum (map (\<lambda>d. fmul d d) (map (\<lambda>a. fsub a (Fin 61)) outlier_gaps)))
        (float_of_len (length outlier_gaps)) = Fin 16"
  unfolding outlier_gaps_def by code_simp

lemma fsqrt_16: "fsqrt (Fin 16) = Fin 4"
proof -
  have "sqrt 16 = sqrt (4 ^ 2)" by simp
  also have "\<dots> = 4" by (simp only: real_sqrt_abs)
  finally have "sqrt 16 = 4" .
  moreover have "fround 4 = Fin 4" by code_simp
  ultimately show ?thesis by simp
qed

lemma outlier_std: "np_std outlier_gaps = Fin 4"
proof -
  have m: "fdiv (np_sum outlier_gaps) (float_of_len (length outlier_gaps)) = Fin 61"
    using outlier_mean by (simp add: np_mean_def)
  show ?thesis unfolding np_std_def Let_def m outlier_variance by (rule fsqrt_16)
qed

lemma unusual_60: "\<not> unusual (Fin 61) (Fin 4) (Fin 60)"
  by code_simp

lemma unusual_77: "unusual (Fin 61) (Fin 4) (Fin 77)"
  by code_simp

lemma outlier_detect:
  "detect_anomalies outlier_gaps = [''Unusual gap in telemetry at batch 5'']"
proof -
  have "detect_anomalies outlier_gaps =
        map (\<lambda>(i, interval). gap_message i)
          (filter (\<lambda>(i, interval). unusual (Fin 61) (Fin 4) interval) (enumerate 0 outlier_gaps))"
    by (simp add: detect_anomalies_def outlier_mean outlier_std Let_def)
  also have "\<dots> = [gap_message 5]"
    unfolding outlier_gaps_def by (simp add: unusual_60 unusual_77 eval_nat_numeral)
  also have "gap_message 5 = ''Unusual gap in telemetry at batch 5''" by code_simp
  finally show ?thesis .
qed

section \<open>Indicators\<close>

lemma enumerate_nth: "enumerate 0 xs = map (\<lambda>i. (i, xs ! i)) [0..<length xs]"
  by (rule nth_equalityI) (simp_all add: nth_enumerate_eq)

lemma detect_anomalies_index:
  "detect_anomalies intervals =
     map gap_message
       (filter (\<lambda>i. unusual (np_mean intervals) (np_std intervals) (intervals ! i))
          [0..<length intervals])"
proof (cases "intervals = []")
  case True
  then show ?thesis by (simp add: detect_anomalies_def)
next
  case False
  then show ?thesis
    by (simp add: detect_anomalies_def Let_def enumerate_nth filter_map o_def)
qed

text \<open>
  Claim C2, as amended. The indicators are, in the order of the gaps, one string per gap
  that the test flags: \<^verbatim>\<open>Unusual gap in telemetry at batch i\<close>, where \<open>i\<close> is the index of
  the gap counted from 0, as \<^verbatim>\<open>enumerate\<close> gives it.
\<close>

theorem indicators_use_gap_index:
  "detect_anomalies intervals =
     map (\<lambda>i. ''Unusual gap in telemetry at batch '' @ str_nat i)
       (filter (\<lambda>i. unusual (np_mean intervals) (np_std intervals) (intervals ! i))
          [0..<length intervals])"
  using detect_anomalies_index [of intervals] by (simp add: gap_message_def [abs_def])

lemma outlier_flagged:
  "filter (\<lambda>i. unusual (np_mean outlier_gaps) (np_std outlier_gaps) (outlier_gaps ! i))
     [0..<length outlier_gaps] = [5]"
  unfolding outlier_mean outlier_std
  by (simp add: outlier_gaps_def unusual_60 unusual_77)

lemma msg_6: "''Unusual gap in telemetry at batch '' @ str_nat (5 + 1) = ''Unusual gap in telemetry at batch 6''"
  by code_simp

text \<open>
  The claim as first stated fails: in the sample run the one flagged gap is the sixth,
  which has index 5 from 0, and the indicator says batch 5, not batch 6.
\<close>

theorem indicator_is_not_one_based:
  "detect_anomalies (batch_intervals outlier_run) = [''Unusual gap in telemetry at batch 5'']
   \<and> filter (\<lambda>i. unusual (np_mean (batch_intervals outlier_run)) (np_std (batch_intervals outlier_run))
                   (batch_intervals outlier_run ! i))
        [0..<length (batch_intervals outlier_run)] = [5]
   \<and> detect_anomalies (batch_intervals outlier_run) \<noteq>
       map (\<lambda>i. ''Unusual gap in telemetry at batch '' @ str_nat (i + 1))
         (filter (\<lambda>i. unusual (np_mean (batch_intervals outlier_run)) (np_std (batch_intervals outlier_run))
                   (batch_intervals outlier_run ! i))
            [0..<length (batch_intervals outlier_run)])"
  unfolding outlier_intervals outlier_flagged outlier_detect
  by (simp add: msg_6 [simplified])

section \<open>Threat score\<close>

lemma rnd_3: "rnd 3 = 3" by code_simp
lemma rnd_3c: "rnd (3 * (3602879701896397 / 36028797018963968)) = 1351079888211149 / 4503599627370496"
  by code_simp

lemma term_1: "py_min (lit (3/10)) (fmul (float_of_len 1) (lit (1/10))) = lit (1/10)" by code_simp
lemma term_2: "py_min (lit (3/10)) (fmul (float_of_len 2) (lit (1/10))) = lit (2/10)" by code_simp

lemma fround_lower:
  assumes "0 < c" "c \<le> rnd x"
  shows "fround x = PInf \<or> (\<exists>y. fround x = Fin y \<and> c \<le> y)"
  using assms by (auto simp: fround_def Let_def)

lemma term_ge_3:
  assumes "3 \<le> n"
  shows "py_min (lit (3/10)) (fmul (float_of_len n) (lit (1/10))) = lit (3/10)"
proof -
  let ?c = "3602879701896397 / 36028797018963968 :: real"
  let ?w = "1351079888211149 / 4503599627370496 :: real"
  have "rnd 3 \<le> rnd (real n)" using assms by (intro rnd_mono) simp
  then have n3: "3 \<le> rnd (real n)" by (simp add: rnd_3)
  have big: "fmul a (Fin ?c) = PInf \<or> (\<exists>y. fmul a (Fin ?c) = Fin y \<and> ?w \<le> y)"
    if "a = PInf \<or> (\<exists>z. a = Fin z \<and> 3 \<le> z)" for a
  proof -
    from that consider "a = PInf" | z where "a = Fin z" "3 \<le> z" by blast
    then show ?thesis
    proof cases
      case 1
      then show ?thesis by simp
    next
      case 2
      have "3 * ?c \<le> z * ?c" using 2(2) by (intro mult_right_mono) simp_all
      then have "rnd (3 * ?c) \<le> rnd (z * ?c)" by (rule rnd_mono)
      then have "?w \<le> rnd (z * ?c)" by (simp only: rnd_3c)
      then show ?thesis using fround_lower [of ?w "z * ?c"] 2(1) by simp
    qed
  qed
  have "float_of_len n = PInf \<or> (\<exists>z. float_of_len n = Fin z \<and> 3 \<le> z)"
    unfolding float_of_len_def using fround_lower [of 3 "real n"] n3 by simp
  from big [OF this] show ?thesis
    unfolding lit_01 lit_03 by (auto simp: py_min_def)
qed

lemma anomaly_term_cases:
  "anomaly_term anomalies \<in> set [Fin 0, lit (1/10), lit (2/10), lit (3/10)]"
proof -
  consider "length anomalies = 0" | "length anomalies = 1" | "length anomalies = 2"
    | "3 \<le> length anomalies" by linarith
  then show ?thesis
  proof cases
    case 1 then show ?thesis by (simp add: anomaly_term_def)
  next
    case 2 then have "anomalies \<noteq> []" by auto
    then show ?thesis using 2 term_1 by (simp add: anomaly_term_def)
  next
    case 3 then have "anomalies \<noteq> []" by auto
    then show ?thesis using 3 term_2 by (simp add: anomaly_term_def)
  next
    case 4 then have "anomalies \<noteq> []" by auto
    then show ?thesis using term_ge_3 [OF 4] by (simp add: anomaly_term_def)
  qed
qed

lemma fadd_zero_left: "is_double a \<Longrightarrow> fadd (Fin 0) a = a"
  by (cases a) (simp_all add: is_double_def)

lemma fadd_zero_right: "is_double a \<Longrightarrow> fadd a (Fin 0) = a"
  by (cases a) (simp_all add: is_double_def)

lemma is_double_lit: "is_double (lit x)"
  by (simp add: lit_def is_double_fround)

lemma is_double_anomaly_term: "is_double (anomaly_term anomalies)"
  using anomaly_term_cases [of anomalies] is_double_lit
  by (auto simp: is_double_def fround_zero simp del: One_nat_def)

lemma score_of_terms:
  "score_of anomalies batch_count hours
     = fadd (anomaly_term anomalies) (density_term batch_count hours)"
proof -
  have a: "fadd (Fin 0) (anomaly_term anomalies) = anomaly_term anomalies"
    by (rule fadd_zero_left [OF is_double_anomaly_term])
  have b: "fadd (anomaly_term anomalies) (Fin 0) = anomaly_term anomalies"
    by (rule fadd_zero_right [OF is_double_anomaly_term])
  show ?thesis
  proof (cases "anomalies = []")
    case True
    then have "anomaly_term anomalies = Fin 0" by (simp add: anomaly_term_def)
    then show ?thesis using True b
      by (simp add: score_of_def density_term_def Let_def del: fadd.simps)
  next
    case False
    then have "fadd (Fin 0) (py_min (lit (3/10)) (fmul (float_of_len (length anomalies)) (lit (1/10))))
        = anomaly_term anomalies"
      using a by (simp add: anomaly_term_def)
    then show ?thesis using False b
      by (simp add: score_of_def density_term_def Let_def del: fadd.simps)
  qed
qed

lemma add_12: "fadd (lit (1/10)) (lit (2/10)) = Fin (1351079888211149 / 4503599627370496)" by code_simp
lemma lit_04: "lit (4/10) = Fin (3602879701896397 / 9007199254740992)" by code_simp

lemma lit_510: "lit (5/10) = Fin (1/2)" by code_simp

lemma sum_02: "fadd (Fin 0) (Fin (3602879701896397 / 18014398509481984)) = Fin (3602879701896397 / 18014398509481984)" by code_simp
lemma sum_12: "fadd (Fin (3602879701896397 / 36028797018963968)) (Fin (3602879701896397 / 18014398509481984)) = Fin (1351079888211149 / 4503599627370496)" by code_simp
lemma sum_22: "fadd (Fin (3602879701896397 / 18014398509481984)) (Fin (3602879701896397 / 18014398509481984)) = Fin (3602879701896397 / 9007199254740992)" by code_simp
lemma sum_32: "fadd (Fin (5404319552844595 / 18014398509481984)) (Fin (3602879701896397 / 18014398509481984)) = Fin (1/2)" by code_simp
lemma sum_00: "fadd (Fin 0) (Fin 0) = Fin 0" by code_simp
lemma sum_10: "fadd (Fin (3602879701896397 / 36028797018963968)) (Fin 0) = Fin (3602879701896397 / 36028797018963968)" by code_simp
lemma sum_20: "fadd (Fin (3602879701896397 / 18014398509481984)) (Fin 0) = Fin (3602879701896397 / 18014398509481984)" by code_simp
lemma sum_30: "fadd (Fin (5404319552844595 / 18014398509481984)) (Fin 0) = Fin (5404319552844595 / 18014398509481984)" by code_simp

lemma score_values:
  "score_of anomalies batch_count hours \<in>
     set [Fin 0, Fin (3602879701896397 / 36028797018963968),
          Fin (3602879701896397 / 18014398509481984),
          Fin (5404319552844595 / 18014398509481984),
          Fin (1351079888211149 / 4503599627370496),
          Fin (3602879701896397 / 9007199254740992), Fin (1/2)]"
proof -
  have a: "anomaly_term anomalies \<in> set [Fin 0, Fin (3602879701896397 / 36028797018963968),
          Fin (3602879701896397 / 18014398509481984), Fin (5404319552844595 / 18014398509481984)]"
    using anomaly_term_cases [of anomalies] unfolding lit_01 lit_02 lit_03 .
  have d: "density_term batch_count hours \<in> set [Fin 0, Fin (3602879701896397 / 18014398509481984)]"
    unfolding density_term_def lit_02 by simp
  show ?thesis unfolding score_of_terms using a d
    by (auto simp only: set_simps insert_iff empty_iff sum_00 sum_02 sum_10 sum_12 sum_20 sum_22 sum_30 sum_32 simp_thms)
qed

text \<open>
  Claim C1, as amended. The threat score is the float sum of the anomaly term and the
  density term. It is one of seven doubles: 0.0, 0.1, 0.2, 0.3, 0.4, 0.5 and the sum
  0.1 + 0.2, which is 0.30000000000000004 and not 0.3. It never exceeds 0.5, so the
  level is LOW or MODERATE and never HIGH or CRITICAL. A completed analysis reports this
  score and the level derived from it.
\<close>

theorem score_is_sum_of_two_terms:
  "score_of anomalies batch_count hours
     = fadd (anomaly_term anomalies) (density_term batch_count hours)
   \<and> score_of anomalies batch_count hours \<in>
       set [Fin 0, lit (1/10), lit (2/10), lit (3/10), fadd (lit (1/10)) (lit (2/10)),
            lit (4/10), lit (5/10)]
   \<and> fadd (lit (1/10)) (lit (2/10)) = Fin (1351079888211149 / 4503599627370496)
   \<and> \<not> fgt (score_of anomalies batch_count hours) (lit (5/10))
   \<and> level_of (score_of anomalies batch_count hours) \<in> set [''LOW'', ''MODERATE'']
   \<and> (request_analysis t0 t1 TELEMETRY_STORE req = Inr (Complete r) \<longrightarrow>
        an_threat_score r = score_of (an_indicators r) (an_batches_analyzed r) (an_hours r)
        \<and> an_threat_level r = level_of (an_threat_score r))"
proof -
  note v = score_values [of anomalies batch_count hours]
  have 1: "score_of anomalies batch_count hours \<in>
       set [Fin 0, lit (1/10), lit (2/10), lit (3/10), fadd (lit (1/10)) (lit (2/10)),
            lit (4/10), lit (5/10)]"
    unfolding lit_01 lit_02 lit_03 lit_04 lit_510 sum_12 using v .
  have 2: "\<not> fgt (score_of anomalies batch_count hours) (lit (5/10))"
    unfolding lit_510 using v by (auto simp: fgt_def)
  have 3: "level_of (score_of anomalies batch_count hours) \<in> set [''LOW'', ''MODERATE'']"
    using v by (auto simp: level_of_Fin)
  have 4: "an_threat_score r = score_of (an_indicators r) (an_batches_analyzed r) (an_hours r)
        \<and> an_threat_level r = level_of (an_threat_score r)"
    if "request_analysis t0 t1 TELEMETRY_STORE req = Inr (Complete r)"
  proof -
    from that obtain h bs where "analyse t1 h bs = Inr (Complete r)"
      by (auto simp: request_analysis_def Let_def split: option.splits sum.splits if_splits)
    then show ?thesis by (auto simp: analyse_def Let_def split: sum.splits)
  qed
  show ?thesis using score_of_terms [of anomalies batch_count hours] 1 2 3 4 add_12 by blast
qed

theorem score_is_sum_of_two_terms_witness:
  "request_analysis (Fin 1000000) (Fin 1000001) (one_batch_store 5000) day_request
     = Inr (Complete (one_batch_analysis 5000 (Fin (1/2))))
   \<and> an_threat_score (one_batch_analysis 5000 (Fin (1/2)))
       = score_of (an_indicators (one_batch_analysis 5000 (Fin (1/2))))
           (an_batches_analyzed (one_batch_analysis 5000 (Fin (1/2))))
           (an_hours (one_batch_analysis 5000 (Fin (1/2))))
   \<and> an_threat_score (one_batch_analysis 5000 (Fin (1/2))) = lit (2/10)
   \<and> an_threat_level (one_batch_analysis 5000 (Fin (1/2))) = ''LOW''"
proof -
  note th = score_is_sum_of_two_terms [of "[]" 1 24 "Fin 1000000" "Fin 1000001"
      "one_batch_store 5000" day_request "one_batch_analysis 5000 (Fin (1/2))"]
  have a: "an_threat_score (one_batch_analysis 5000 (Fin (1/2))) = lit (2/10)"
    unfolding lit_02 by (simp add: one_batch_analysis_def)
  have b: "an_threat_level (one_batch_analysis 5000 (Fin (1/2))) = ''LOW''"
    by (simp add: one_batch_analysis_def)
  show ?thesis using th ex_run_small a b by blast
qed

lemma outlier_matching: "matching outlier_run ''d1'' (Fin 913600) = outlier_run"
  by (simp add: matching_def outlier_run_def period_batch_def fgt_def)

lemma outlier_totals: "sum_list (map sample_count outlier_run) = 1080" "length outlier_run = 18"
  by (simp_all add: outlier_run_def period_batch_def)

lemma outlier_score: "score_of [''Unusual gap in telemetry at batch 5''] 18 24 = Fin (1351079888211149 / 4503599627370496)"
  by code_simp
lemma outlier_level: "level_of (Fin (1351079888211149 / 4503599627370496)) = ''MODERATE''"
  by code_simp
lemma outlier_recs: "recommend [''Unusual gap in telemetry at batch 5''] 18 ''MODERATE''
   = [''Investigate telemetry gaps for possible interference'']"
  by code_simp
lemma outlier_conf: "confidence_of 1080 = Inr (Fin (7782220156096217 / 72057594037927936))"
  by code_simp

lemma outlier_analysis:
  "request_analysis (Fin 1000000) (Fin 1000001) outlier_run day_request
     = Inr (Complete
        \<lparr>an_threat_level = ''MODERATE'', an_threat_score = Fin (1351079888211149 / 4503599627370496),
         an_confidence = Fin (7782220156096217 / 72057594037927936), an_hours = 24,
         an_batches_analyzed = 18, an_total_samples = 1080,
         an_indicators = [''Unusual gap in telemetry at batch 5''],
         an_recommendations = [''Investigate telemetry gaps for possible interference''],
         an_timestamp = Fin 1000001\<rparr>)"
proof -
  have ne: "outlier_run \<noteq> []" by (simp add: outlier_run_def)
  have "analyse (Fin 1000001) 24 outlier_run = Inr (Complete
        \<lparr>an_threat_level = ''MODERATE'', an_threat_score = Fin (1351079888211149 / 4503599627370496),
         an_confidence = Fin (7782220156096217 / 72057594037927936), an_hours = 24,
         an_batches_analyzed = 18, an_total_samples = 1080,
         an_indicators = [''Unusual gap in telemetry at batch 5''],
         an_recommendations = [''Investigate telemetry gaps for possible interference''],
         an_timestamp = Fin 1000001\<rparr>)"
    unfolding analyse_def outlier_intervals outlier_detect outlier_totals Let_def
      outlier_score outlier_level outlier_recs outlier_conf
    by simp
  then show ?thesis
    unfolding request_analysis_def day_request_def
    by (simp add: ex_window [simplified] ex_cutoff outlier_matching ne)
qed

text \<open>
  The claim as first stated fails: the sample run has one anomaly and too few batches
  for 24 hours, and its score 0.1 + 0.2 is none of the six values; it is greater than
  0.3 and the level is MODERATE.
\<close>

theorem score_outside_the_six_values:
  "(\<exists>r. request_analysis (Fin 1000000) (Fin 1000001) outlier_run day_request = Inr (Complete r)
        \<and> an_threat_score r = Fin (1351079888211149 / 4503599627370496)
        \<and> an_threat_level r = ''MODERATE'')
   \<and> Fin (1351079888211149 / 4503599627370496)
        \<notin> set [Fin 0, lit (1/10), lit (2/10), lit (3/10), lit (4/10), lit (5/10)]
   \<and> fgt (Fin (1351079888211149 / 4503599627370496)) (lit (3/10))"
  unfolding lit_01 lit_02 lit_03 lit_04 lit_510 outlier_analysis
  by (simp add: fgt_def)

section \<open>Scaling and underflow\<close>





section \<open>Three tiny gaps\<close>


lemma tiny_pos: "0 < tiny_gap" "0 < tiny_mean" "0 < tiny_total"
  by (simp_all add: tiny_gap_def tiny_mean_def tiny_total_def)


























section \<open>Identical gaps\<close>













section \<open>A gap that overflows\<close>




end
